theory Spec2Isabelle
  imports Main "HOL-Library.Sublist"
begin

section \<open>Strings as the classifier uses them\<close>

text \<open>
  Python strings are modelled as \<^typ>\<open>string\<close>, a \<^typ>\<open>char\<close> being a code point below
  256; text with a code point above 255 has no value in this model.  On these code
  points the three string operations of \<^verbatim>\<open>choose_topic\<close> act as CPython does:
  \<^verbatim>\<open>str.strip()\<close> removes the characters for which \<^verbatim>\<open>str.isspace\<close> holds (9 to 13,
  28 to 32, 133 and 160), \<^verbatim>\<open>str.lower()\<close> adds 32 to the upper-case letters (65 to 90,
  192 to 214 and 216 to 222) and leaves every other character as it is, and
  \<^verbatim>\<open>keyword in line\<close> is containment as a contiguous run, \<^const>\<open>sublist\<close>.
\<close>

definition newline :: char where
  "newline = CHR 0x0A"

definition is_space :: "char \<Rightarrow> bool" where
  "is_space c =
     (let n = (of_char c :: nat)
      in (9 \<le> n \<and> n \<le> 13) \<or> (28 \<le> n \<and> n \<le> 32) \<or> n = 133 \<or> n = 160)"

definition lower_char :: "char \<Rightarrow> char" where
  "lower_char c =
     (let n = (of_char c :: nat)
      in if (65 \<le> n \<and> n \<le> 90) \<or> (192 \<le> n \<and> n \<le> 214) \<or> (216 \<le> n \<and> n \<le> 222)
         then char_of (n + 32) else c)"

definition py_lower :: "string \<Rightarrow> string" where
  "py_lower s = map lower_char s"

definition py_lstrip :: "string \<Rightarrow> string" where
  "py_lstrip s = dropWhile is_space s"

definition py_rstrip :: "string \<Rightarrow> string" where
  "py_rstrip s = rev (dropWhile is_space (rev s))"

definition py_strip :: "string \<Rightarrow> string" where
  "py_strip s = py_rstrip (py_lstrip s)"

text \<open>
  \<^verbatim>\<open>s.split("\n", 1)\<close>: at most one split, at the first newline.  The result has one
  element when \<^verbatim>\<open>s\<close> has no newline and two otherwise.
\<close>

definition py_split1 :: "string \<Rightarrow> string list" where
  "py_split1 s =
     (if newline \<in> set s
      then [takeWhile (\<lambda>c. c \<noteq> newline) s, tl (dropWhile (\<lambda>c. c \<noteq> newline) s)]
      else [s])"

datatype py_error = IndexError | RequestException | ApiError | MalformedReply

text \<open>\<^verbatim>\<open>xs[i]\<close> for a non-negative index: IndexError out of range.\<close>

definition py_item :: "'a list \<Rightarrow> nat \<Rightarrow> py_error + 'a" where
  "py_item xs i = (if i < length xs then Inr (xs ! i) else Inl IndexError)"

section \<open>The topic classifier\<close>

text \<open>
  \<^verbatim>\<open>TOPIC_ID_MAPPING\<close> is a dict literal; iteration over \<^verbatim>\<open>.items()\<close> follows insertion
  order, so the table is the list of its entries as written.
\<close>

definition TOPIC_ID_MAPPING :: "(string \<times> int) list" where
  "TOPIC_ID_MAPPING =
     [(''chief officer'', 36),
      (''master'', 2),
      (''2nd officer'', 44),
      (''3rd officer'', 50),
      (''chief engineer'', 54),
      (''2nd engineer'', 58),
      (''3rd engineer'', 62),
      (''4th engineer'', 66),
      (''electrical engineer'', 70),
      (''bosun'', 74),
      (''able seaman'', 78),
      (''ordinary seaman'', 82),
      (''fitter'', 86),
      (''motorman'', 90),
      (''wiper'', 94),
      (''cook'', 98),
      (''steward'', 102)]"

text \<open>
  The \<^verbatim>\<open>for keyword, topic_id in TOPIC_ID_MAPPING.items()\<close> loop of \<^verbatim>\<open>choose_topic\<close>:
  return at the first keyword contained in the line, 0 after the last entry.
\<close>

fun match_topic :: "(string \<times> int) list \<Rightarrow> string \<Rightarrow> int" where
  "match_topic [] lower_line = 0"
| "match_topic ((keyword, topic_id) # rest) lower_line =
     (if sublist keyword lower_line then topic_id else match_topic rest lower_line)"

definition choose_topic :: "string \<Rightarrow> py_error + int" where
  "choose_topic formatted_text =
     (case py_item (py_split1 (py_strip formatted_text)) 0 of
        Inl e \<Rightarrow> Inl e
      | Inr piece \<Rightarrow>
          (let first_line = py_strip piece;
               lower_line = py_lower first_line
           in Inr (match_topic TOPIC_ID_MAPPING lower_line)))"

text \<open>A keyword that neither starts nor ends with a space character.\<close>

definition clean_ends :: "string \<Rightarrow> bool" where
  "clean_ends k = (k \<noteq> [] \<and> \<not> is_space (hd k) \<and> \<not> is_space (last k))"

text \<open>
  The classifier in the words of the specification: the first line of the text,
  lower-cased, tested for each keyword in table order; the destination of the first
  keyword found, 0 for no match.
\<close>

definition first_line_of :: "string \<Rightarrow> string" where
  "first_line_of s = takeWhile (\<lambda>c. c \<noteq> newline) s"

definition classify :: "string \<Rightarrow> int" where
  "classify formatted_text =
     (case find (\<lambda>(keyword, topic_id). sublist keyword (py_lower (first_line_of formatted_text)))
             TOPIC_ID_MAPPING of
        None \<Rightarrow> 0
      | Some (keyword, topic_id) \<Rightarrow> topic_id)"

section \<open>The processed-id store\<close>

text \<open>
  The table \<^verbatim>\<open>processed_vacancies\<close> as the list of its rows in insertion order.  A row
  is the pair of columns the program writes or reads, \<^verbatim>\<open>vacancy_id\<close> (NOT NULL, UNIQUE)
  and \<^verbatim>\<open>processed_at\<close> (the time of the insert); the surrogate key \<^verbatim>\<open>id\<close> is assigned
  by the database and appears in no statement of the program.
\<close>

record processed_record =
  vacancy_id :: int
  processed_at :: nat

type_synonym store = "processed_record list"

text \<open>
  What \<^verbatim>\<open>cursor.execute\<close> and \<^verbatim>\<open>conn.commit\<close> do inside the \<^verbatim>\<open>try\<close> of
  \<^verbatim>\<open>save_processed_id\<close>: they raise, or the statement runs at some CURRENT_TIMESTAMP.
\<close>

datatype sqlite_result = Raised | Executed nat

text \<open>
  \<^verbatim>\<open>SELECT MAX(vacancy_id)\<close> is NULL exactly on the empty table, and then the function
  returns the literal 308420.  The query itself is taken to succeed.
\<close>

definition get_last_processed_id :: "store \<Rightarrow> int" where
  "get_last_processed_id tbl =
     (case map vacancy_id tbl of
        [] \<Rightarrow> 308420
      | v # vs \<Rightarrow> fold max vs v)"

text \<open>
  \<^verbatim>\<open>INSERT OR IGNORE\<close>: a row whose \<^verbatim>\<open>vacancy_id\<close> is already there violates UNIQUE
  and is dropped without an error.  An exception of the statement is caught and logged,
  and the table is as before.  Opening the connection, before the \<^verbatim>\<open>try\<close>, is taken to
  succeed.
\<close>

definition save_processed_id :: "sqlite_result \<Rightarrow> int \<Rightarrow> store \<Rightarrow> store" where
  "save_processed_id res vid tbl =
     (case res of
        Raised \<Rightarrow> tbl
      | Executed now \<Rightarrow>
          (if vid \<in> set (map vacancy_id tbl) then tbl
           else tbl @ [\<lparr>vacancy_id = vid, processed_at = now\<rparr>]))"

text \<open>
  The specification's query \<^verbatim>\<open>is_processed\<close>; the program has no function for it, it
  is the presence of a row with this \<^verbatim>\<open>vacancy_id\<close>.
\<close>

definition is_processed :: "int \<Rightarrow> store \<Rightarrow> bool" where
  "is_processed vid tbl = (vid \<in> set (map vacancy_id tbl))"

section \<open>The collaborators\<close>

text \<open>
  The outcome of \<^verbatim>\<open>requests.get\<close> on the vacancy URL: an exception, or a response with
  its status code and what BeautifulSoup finds in the body: the
  \<^verbatim>\<open>div.vacancy-full-content\<close> block if there is one, with the stripped text of its first
  \<^verbatim>\<open>h1\<close> if there is one and the text of the whole block.
\<close>

record main_block =
  h1_text :: "string option"
  block_text :: string

datatype http_result = GetFailed | Response int "main_block option"

text \<open>
  The outcome of \<^verbatim>\<open>requests.post\<close> to the formatting API: an exception, or a response
  with its status code and the \<^verbatim>\<open>choices[0].message.content\<close> of its JSON body when
  the body has one.
\<close>

datatype api_result = PostFailed | ApiResponse int "string option"

text \<open>
  Everything outside the program, indexed by the vacancy id being handled: the reply
  of the site, the reply of the formatting API to the raw text, whether
  \<^verbatim>\<open>bot.send_message\<close> returns (\<open>True\<close>) or raises (\<open>False\<close>) for a topic and a text,
  and what the database does with the insert.
\<close>

record world =
  http_get :: "int \<Rightarrow> http_result"
  deepseek_post :: "int \<Rightarrow> string \<Rightarrow> api_result"
  send_message :: "int \<Rightarrow> int \<Rightarrow> string \<Rightarrow> bool"
  db_execute :: "int \<Rightarrow> sqlite_result"

text \<open>\<^verbatim>\<open>parse_vacancy_page\<close>, from the reply to its request; \<open>None\<close> is Python's None.\<close>

definition parse_vacancy_page :: "http_result \<Rightarrow> string option" where
  "parse_vacancy_page reply =
     (case reply of
        GetFailed \<Rightarrow> None
      | Response status_code page \<Rightarrow>
          (if status_code \<noteq> 200 then None
           else (case page of
                   None \<Rightarrow> None
                 | Some blk \<Rightarrow>
                     (case h1_text blk of
                        None \<Rightarrow> None
                      | Some title \<Rightarrow>
                          Some (''Job Title: '' @ title @ [newline] @ block_text blk)))))"

text \<open>
  \<^verbatim>\<open>format_vacancy_deepseek\<close>, from the reply to its request: the exception of the
  request is raised again, a status other than 200 raises, and a 200 reply gives the
  stripped content, which may be empty.
\<close>

definition format_vacancy_deepseek :: "api_result \<Rightarrow> py_error + string" where
  "format_vacancy_deepseek reply =
     (case reply of
        PostFailed \<Rightarrow> Inl RequestException
      | ApiResponse status_code body \<Rightarrow>
          (if status_code = 200
           then (case body of
                   None \<Rightarrow> Inl MalformedReply
                 | Some content \<Rightarrow> Inr (py_strip content))
           else Inl ApiError))"

section \<open>The scan\<close>

text \<open>
  The calls the scan makes, in order, each tagged with the vacancy id it is made for:
  the page request, the formatting request, \<^verbatim>\<open>bot.send_message\<close> with its topic, its
  text and whether it returned, and \<^verbatim>\<open>save_processed_id\<close>.
\<close>

datatype event = Fetch int | Format int | Send int int string bool | Save int

fun event_id :: "event \<Rightarrow> int" where
  "event_id (Fetch i) = i"
| "event_id (Format i) = i"
| "event_id (Send i topic_id txt ok) = i"
| "event_id (Save i) = i"

fun is_send :: "event \<Rightarrow> bool" where
  "is_send (Send i topic_id txt ok) = True"
| "is_send e = False"

fun is_fetch :: "event \<Rightarrow> bool" where
  "is_fetch (Fetch i) = True"
| "is_fetch e = False"

text \<open>The locals of \<^verbatim>\<open>check_new_vacancies\<close>, the table and the calls made so far.\<close>

record scan_state =
  current_id :: int
  new_count :: int
  missing_count :: int
  db :: store
  trace :: "event list"

definition max_missing :: int where
  "max_missing = 10"

definition scan_start :: "store \<Rightarrow> scan_state" where
  "scan_start tbl =
     (let last_id = get_last_processed_id tbl
      in \<lparr>current_id = last_id + 1, new_count = 0, missing_count = 0, db = tbl, trace = []\<rparr>)"

text \<open>The recurring \<^verbatim>\<open>save_processed_id(current_id); current_id += 1\<close>.\<close>

definition save_and_advance :: "world \<Rightarrow> scan_state \<Rightarrow> scan_state" where
  "save_and_advance w st =
     st\<lparr>db := save_processed_id (db_execute w (current_id st)) (current_id st) (db st),
        trace := trace st @ [Save (current_id st)],
        current_id := current_id st + 1\<rparr>"

text \<open>
  One pass through the body of the \<^verbatim>\<open>while\<close> loop.  \<^verbatim>\<open>choose_topic\<close> is called outside
  every \<^verbatim>\<open>try\<close>, so an exception of it would leave the function: the \<open>Inl\<close> result.
\<close>

definition loop_body :: "world \<Rightarrow> scan_state \<Rightarrow> py_error + scan_state" where
  "loop_body w st =
     (let cid = current_id st;
          st1 = st\<lparr>trace := trace st @ [Fetch cid]\<rparr>
      in case parse_vacancy_page (http_get w cid) of
           None \<Rightarrow>
             Inr (st1\<lparr>current_id := cid + 1, missing_count := missing_count st1 + 1\<rparr>)
         | Some raw_vacancy \<Rightarrow>
             (let st2 = st1\<lparr>missing_count := 0, trace := trace st1 @ [Format cid]\<rparr>
              in case format_vacancy_deepseek (deepseek_post w cid raw_vacancy) of
                   Inl e \<Rightarrow> Inr (save_and_advance w st2)
                 | Inr formatted_vacancy \<Rightarrow>
                     (if formatted_vacancy = [] then Inr (save_and_advance w st2)
                      else (case choose_topic formatted_vacancy of
                              Inl e \<Rightarrow> Inl e
                            | Inr topic_id \<Rightarrow>
                                (if topic_id = 0 then Inr (save_and_advance w st2)
                                 else
                                   (let ok = send_message w cid topic_id formatted_vacancy;
                                        st3 = st2\<lparr>trace := trace st2 @
                                                 [Send cid topic_id formatted_vacancy ok]\<rparr>;
                                        st4 = save_and_advance w st3
                                    in Inr (st4\<lparr>new_count := new_count st4 + 1\<rparr>)))))))"

text \<open>
  The \<^verbatim>\<open>while missing_count < max_missing\<close> loop.  It need not end (a site with a page
  for every id), so it runs on fuel: \<open>None\<close> when the fuel is used up before the loop
  condition fails.
\<close>

fun scan_loop :: "world \<Rightarrow> nat \<Rightarrow> scan_state \<Rightarrow> (py_error + scan_state) option" where
  "scan_loop w 0 st = (if missing_count st < max_missing then None else Some (Inr st))"
| "scan_loop w (Suc fuel) st =
     (if missing_count st < max_missing
      then (case loop_body w st of
              Inl e \<Rightarrow> Some (Inl e)
            | Inr st' \<Rightarrow> scan_loop w fuel st')
      else Some (Inr st))"

text \<open>
  \<^verbatim>\<open>check_new_vacancies\<close>.  The function has no \<^verbatim>\<open>return\<close> statement, so the value it
  returns is Python's None, the \<open>()\<close> of the result; beside it is the state the call
  leaves behind, whose \<open>new_count\<close> is the number in the closing log line.
\<close>

definition check_new_vacancies :: "world \<Rightarrow> nat \<Rightarrow> store \<Rightarrow> (py_error + unit \<times> scan_state) option" where
  "check_new_vacancies w fuel tbl =
     (case scan_loop w fuel (scan_start tbl) of
        None \<Rightarrow> None
      | Some (Inl e) \<Rightarrow> Some (Inl e)
      | Some (Inr st) \<Rightarrow> Some (Inr ((), st)))"

text \<open>
  The state after at most \<open>n\<close> passes through the loop body, whether or not the loop
  ever ends: what has happened so far at any moment of a scan.
\<close>

fun scan_prefix :: "world \<Rightarrow> nat \<Rightarrow> scan_state \<Rightarrow> scan_state" where
  "scan_prefix w 0 st = st"
| "scan_prefix w (Suc n) st =
     (if missing_count st < max_missing
      then (case loop_body w st of
              Inl e \<Rightarrow> st
            | Inr st' \<Rightarrow> scan_prefix w n st')
      else st)"


section \<open>A site with two postings\<close>

text \<open>
  A concrete world for running the model: the site has a page for the ids 308420 and
  308421, the request for 308422 fails and every other id answers 404; the formatting
  API, the bot and the database each answer every call the same way.
\<close>

definition master_page :: main_block where
  "master_page = \<lparr>h1_text = Some ''Master'', block_text = ''Master'' @ [newline] @ ''Tanker''\<rparr>"

definition master_text :: string where
  "master_text = ''Master on Tanker'' @ [newline] @ ''Joining Date: ASAP''"

definition demo_world :: "api_result \<Rightarrow> bool \<Rightarrow> sqlite_result \<Rightarrow> world" where
  "demo_world reply sent res =
     \<lparr>http_get = (\<lambda>i. if i = 308420 \<or> i = 308421 then Response 200 (Some master_page)
                      else if i = 308422 then GetFailed
                      else Response 404 None),
      deepseek_post = (\<lambda>i raw_text. reply),
      send_message = (\<lambda>i topic_id txt. sent),
      db_execute = (\<lambda>i. res)\<rparr>"

section \<open>Facts about the string operations\<close>

lemma is_space_lower_char: "is_space (lower_char c) = is_space c"
  unfolding is_space_def lower_char_def Let_def
  by (cases "65 \<le> (of_char c :: nat) \<and> (of_char c :: nat) \<le> 90") (simp_all, presburger?)

lemma dropWhile_keeps_run:
  "k \<noteq> [] \<Longrightarrow> \<not> P (hd k) \<Longrightarrow> \<exists>a'. dropWhile P (a @ k @ b) = a' @ k @ b"
  by (induction a) (auto simp: neq_Nil_conv)

lemma py_lstrip_keeps_run:
  "k \<noteq> [] \<Longrightarrow> \<not> is_space (hd k) \<Longrightarrow> \<exists>a'. py_lstrip (a @ k @ b) = a' @ k @ b"
  unfolding py_lstrip_def by (rule dropWhile_keeps_run)

lemma py_rstrip_keeps_run:
  assumes "k \<noteq> []" "\<not> is_space (last k)"
  shows "\<exists>b'. py_rstrip (a @ k @ b) = a @ k @ b'"
proof -
  have "rev k \<noteq> []" "\<not> is_space (hd (rev k))"
    using assms by (simp_all add: hd_rev)
  then obtain c where "dropWhile is_space (rev b @ rev k @ rev a) = c @ rev k @ rev a"
    using dropWhile_keeps_run by blast
  then have "py_rstrip (a @ k @ b) = a @ k @ rev c"
    by (simp add: py_rstrip_def)
  then show ?thesis by blast
qed

lemma sublist_dropWhile: "sublist k (dropWhile P m) \<Longrightarrow> sublist k m"
  by (metis sublist_order.order_trans suffix_dropWhile suffix_imp_sublist)

lemma sublist_py_strip_imp: "sublist k (py_strip m) \<Longrightarrow> sublist k m"
  unfolding py_strip_def py_rstrip_def py_lstrip_def
  by (metis sublist_dropWhile sublist_rev_left rev_rev_ident sublist_rev_right)

lemma sublist_py_strip:
  assumes "clean_ends k"
  shows "sublist k (py_strip m) = sublist k m"
proof
  assume "sublist k (py_strip m)"
  then show "sublist k m" by (rule sublist_py_strip_imp)
next
  assume "sublist k m"
  then obtain a b where m: "m = a @ k @ b" by (auto simp: sublist_def)
  from assms obtain a' where "py_lstrip (a @ k @ b) = a' @ k @ b"
    using py_lstrip_keeps_run unfolding clean_ends_def by blast
  moreover from assms obtain b' where "py_rstrip (a' @ k @ b) = a' @ k @ b'"
    using py_rstrip_keeps_run unfolding clean_ends_def by blast
  ultimately show "sublist k (py_strip m)"
    by (simp add: py_strip_def m)
qed

lemma py_lower_strip: "py_lower (py_strip s) = py_strip (py_lower s)"
proof -
  have eq: "is_space \<circ> lower_char = is_space"
    by (rule ext) (simp add: is_space_lower_char)
  have l: "map lower_char (dropWhile is_space xs) = dropWhile is_space (map lower_char xs)" for xs
    by (simp add: dropWhile_map eq)
  have "map lower_char (rev (dropWhile is_space (rev (dropWhile is_space s))))
      = rev (map lower_char (dropWhile is_space (rev (dropWhile is_space s))))"
    by (simp only: rev_map)
  also have "\<dots> = rev (dropWhile is_space (map lower_char (rev (dropWhile is_space s))))"
    by (simp only: l)
  also have "\<dots> = rev (dropWhile is_space (rev (map lower_char (dropWhile is_space s))))"
    by (simp only: rev_map)
  also have "\<dots> = rev (dropWhile is_space (rev (dropWhile is_space (map lower_char s))))"
    by (simp only: l)
  finally show ?thesis
    by (simp only: py_lower_def py_strip_def py_rstrip_def py_lstrip_def)
qed

lemma py_item_split1: "py_item (py_split1 s) 0 = Inr (first_line_of s)"
proof (cases "newline \<in> set s")
  case True
  then show ?thesis
    by (simp add: py_item_def py_split1_def first_line_of_def)
next
  case False
  then have "takeWhile (\<lambda>c. c \<noteq> newline) s = s"
    by (induction s) auto
  then have "first_line_of s = s"
    by (simp only: first_line_of_def)
  moreover from False have "py_item (py_split1 s) 0 = Inr s"
    by (simp add: py_item_def py_split1_def)
  ultimately show ?thesis by simp
qed

lemma match_topic_find:
  "match_topic tbl line =
     (case find (\<lambda>(keyword, topic_id). sublist keyword line) tbl of
        None \<Rightarrow> 0 | Some (keyword, topic_id) \<Rightarrow> topic_id)"
  by (induction tbl line rule: match_topic.induct) simp_all

lemma match_topic_strip:
  "\<forall>(k, d) \<in> set tbl. clean_ends k \<Longrightarrow> match_topic tbl (py_strip line) = match_topic tbl line"
  by (induction tbl line rule: match_topic.induct) (auto simp: sublist_py_strip)

lemma keywords_clean: "\<forall>(k, d) \<in> set TOPIC_ID_MAPPING. clean_ends k"
  by (simp add: TOPIC_ID_MAPPING_def clean_ends_def is_space_def)

lemma choose_topic_match:
  "choose_topic t = Inr (match_topic TOPIC_ID_MAPPING (py_lower (first_line_of (py_strip t))))"
  by (simp add: choose_topic_def py_item_split1 py_lower_strip match_topic_strip [OF keywords_clean])

lemma choose_topic_classify: "choose_topic t = Inr (classify (py_strip t))"
  by (simp only: choose_topic_match classify_def match_topic_find)

lemma dropWhile_fixed: "xs = [] \<or> \<not> P (hd xs) \<Longrightarrow> dropWhile P xs = xs"
  by (cases xs) auto

lemma py_strip_idem: "py_strip (py_strip s) = py_strip s"
proof -
  define v where "v = dropWhile is_space s"
  define u where "u = dropWhile is_space (rev v)"
  have "suffix u (rev v)" unfolding u_def by (rule suffix_dropWhile)
  then have p: "prefix (rev u) v"
    by (metis rev_rev_ident suffix_to_prefix)
  have v: "v = [] \<or> \<not> is_space (hd v)"
    unfolding v_def using hd_dropWhile by blast
  have "rev u = [] \<or> \<not> is_space (hd (rev u))"
  proof (cases "rev u")
    case Nil
    then show ?thesis by simp
  next
    case (Cons c cs)
    with p obtain w where "v = c # cs @ w" by (auto simp: prefix_def)
    with v Cons show ?thesis by simp
  qed
  then have 1: "dropWhile is_space (rev u) = rev u" by (rule dropWhile_fixed)
  have 2: "dropWhile is_space u = u" unfolding u_def by (rule dropWhile_idem)
  show ?thesis
    unfolding py_strip_def py_rstrip_def py_lstrip_def
    using 1 2 by (simp add: u_def v_def)
qed

lemma strip_keeps_prefix:
  assumes "clean_ends p"
  shows "\<exists>r. py_strip (p @ t) = p @ r"
proof -
  from assms obtain a' where a: "py_lstrip ([] @ p @ t) = a' @ p @ t"
    using py_lstrip_keeps_run unfolding clean_ends_def by blast
  have "a' = []"
  proof -
    have "length (py_lstrip (p @ t)) \<le> length (p @ t)"
      unfolding py_lstrip_def by (rule length_dropWhile_le)
    with a show ?thesis by simp
  qed
  with a have "py_lstrip (p @ t) = p @ t" by simp
  moreover from assms obtain b' where "py_rstrip ([] @ p @ t) = [] @ p @ b'"
    using py_rstrip_keeps_run unfolding clean_ends_def by blast
  ultimately show ?thesis by (simp add: py_strip_def)
qed

lemma first_line_keeps_prefix:
  "newline \<notin> set p \<Longrightarrow> first_line_of (p @ t) = p @ first_line_of t"
  unfolding first_line_of_def by (induction p) auto

lemma match_topic_range: "match_topic tbl l = 0 \<or> match_topic tbl l \<in> snd ` set tbl"
  by (induction tbl l rule: match_topic.induct) auto

lemma match_topic_zero:
  "0 \<notin> snd ` set tbl \<Longrightarrow>
     (match_topic tbl l = 0) = (\<forall>(k, d) \<in> set tbl. \<not> sublist k l)"
  by (induction tbl l rule: match_topic.induct) force+

lemma topic_ids_ge_2: "\<forall>d \<in> snd ` set TOPIC_ID_MAPPING. 2 \<le> d"
  by (simp add: TOPIC_ID_MAPPING_def)

lemma format_output_stripped:
  "format_vacancy_deepseek reply = Inr t \<Longrightarrow> py_strip t = t"
  by (auto simp: format_vacancy_deepseek_def py_strip_idem split: api_result.splits if_splits option.splits)

lemma chief_officer_first:
  "choose_topic (''Chief Officer on Bulk Carrier'' @ rest) = Inr 36"
proof -
  let ?p = "''Chief Officer on Bulk Carrier''"
  have c: "clean_ends ?p" by (simp add: clean_ends_def is_space_def)
  have n: "newline \<notin> set ?p" by (simp add: newline_def)
  obtain r where r: "py_strip (?p @ rest) = ?p @ r"
    using strip_keeps_prefix [OF c] by blast
  have "py_lower (first_line_of (?p @ r)) = py_lower ?p @ py_lower (first_line_of r)"
    using first_line_keeps_prefix [OF n] by (simp add: py_lower_def)
  moreover have "py_lower ?p = ''chief officer'' @ '' on bulk carrier''"
    by code_simp
  ultimately have "sublist ''chief officer'' (py_lower (first_line_of (py_strip (?p @ rest))))"
    by (simp only: r append_assoc sublist_append_rightI)
  then show ?thesis
    by (simp only: choose_topic_match TOPIC_ID_MAPPING_def match_topic.simps if_True)
qed

section \<open>Facts about the store\<close>

lemma fold_max_ge: "(v::int) \<le> fold max vs v \<and> (\<forall>x \<in> set vs. x \<le> fold max vs v)"
  by (induction vs arbitrary: v) (auto simp: max_def, force+)

lemma get_last_ge: "is_processed x tbl \<Longrightarrow> x \<le> get_last_processed_id tbl"
  using fold_max_ge
  by (auto simp: is_processed_def get_last_processed_id_def split: list.splits)

lemma save_marks: "is_processed x (save_processed_id (Executed t) x tbl)"
  by (simp add: is_processed_def save_processed_id_def)

lemma save_absorbs: "is_processed x tbl \<Longrightarrow> save_processed_id r x tbl = tbl"
  by (simp add: is_processed_def save_processed_id_def split: sqlite_result.splits)

lemma save_idem:
  "r1 \<noteq> Raised \<or> r2 = Raised \<Longrightarrow>
     save_processed_id r2 x (save_processed_id r1 x tbl) = save_processed_id r1 x tbl"
  by (cases r1; cases r2) (simp_all add: save_processed_id_def)

section \<open>Facts about the loop\<close>

lemma loop_body_total: "\<exists>st'. loop_body w st = Inr st'"
  by (simp add: loop_body_def Let_def choose_topic_match split: option.splits sum.splits)

lemma loop_body_step:
  assumes "loop_body w st = Inr st'"
  shows "current_id st' = current_id st + 1 \<and>
         (\<exists>es. trace st' = trace st @ es \<and> (\<forall>e \<in> set es. event_id e = current_id st) \<and>
               new_count st' = new_count st + int (length (filter is_send es)))"
  using assms
  by (auto simp: loop_body_def Let_def save_and_advance_def split: option.splits sum.splits if_splits)


lemma scan_loop_prefix:
  "scan_loop w n st = Some (Inr r) \<Longrightarrow> r = scan_prefix w n st"
  by (induction n arbitrary: st) (auto split: if_splits sum.splits)



lemma scan_prefix_trace:
  "\<exists>es. trace (scan_prefix w n st) = trace st @ es \<and>
        (\<forall>e \<in> set es. current_id st \<le> event_id e) \<and>
        new_count (scan_prefix w n st) = new_count st + int (length (filter is_send es))"
proof (induction n arbitrary: st)
  case 0
  then show ?case by simp
next
  case (Suc n)
  show ?case
  proof (cases "missing_count st < max_missing")
    case False
    then show ?thesis by simp
  next
    case True
    obtain st' where b: "loop_body w st = Inr st'"
      using loop_body_total by blast
    from loop_body_step [OF b] obtain es where
      c: "current_id st' = current_id st + 1" and
      es: "trace st' = trace st @ es" "\<forall>e \<in> set es. event_id e = current_id st"
          "new_count st' = new_count st + int (length (filter is_send es))"
      by blast
    from Suc.IH [of st'] obtain fs where
      fs: "trace (scan_prefix w n st') = trace st' @ fs" "\<forall>e \<in> set fs. current_id st' \<le> event_id e"
          "new_count (scan_prefix w n st') = new_count st' + int (length (filter is_send fs))"
      by blast
    have "trace (scan_prefix w (Suc n) st) = trace st @ (es @ fs)"
      using True b es fs by simp
    moreover have "\<forall>e \<in> set (es @ fs). current_id st \<le> event_id e"
      using es fs c by auto
    moreover have "new_count (scan_prefix w (Suc n) st) = new_count st + int (length (filter is_send (es @ fs)))"
      using True b es fs by simp
    ultimately show ?thesis by blast
  qed
qed

lemma scan_start_trace:
  "is_processed x tbl \<Longrightarrow> e \<in> set (trace (scan_prefix w n (scan_start tbl))) \<Longrightarrow> x < event_id e"
proof -
  assume x: "is_processed x tbl" and e: "e \<in> set (trace (scan_prefix w n (scan_start tbl)))"
  obtain es where "trace (scan_prefix w n (scan_start tbl)) = trace (scan_start tbl) @ es"
    "\<forall>e \<in> set es. current_id (scan_start tbl) \<le> event_id e"
    using scan_prefix_trace by blast
  with e have "get_last_processed_id tbl + 1 \<le> event_id e"
    by (auto simp: scan_start_def)
  with get_last_ge [OF x] show ?thesis by simp
qed








lemma never_fetched_again:
  "is_processed x tbl \<Longrightarrow> Fetch x \<notin> set (trace (scan_prefix w n (scan_start tbl)))"
  using scan_start_trace [of x tbl "Fetch x" w n] by auto







lemma below_last_never_fetched:
  "x \<le> get_last_processed_id tbl \<Longrightarrow> Fetch x \<notin> set (trace (scan_prefix w n (scan_start tbl)))"
proof
  assume x: "x \<le> get_last_processed_id tbl"
    and e: "Fetch x \<in> set (trace (scan_prefix w n (scan_start tbl)))"
  obtain es where "trace (scan_prefix w n (scan_start tbl)) = trace (scan_start tbl) @ es"
    "\<forall>e \<in> set es. current_id (scan_start tbl) \<le> event_id e"
    using scan_prefix_trace by blast
  with e have "get_last_processed_id tbl + 1 \<le> event_id (Fetch x)"
    by (auto simp: scan_start_def)
  with x show False by simp
qed

section \<open>The claims\<close>

text \<open>
  C1.  At-most-once delivery: for an id that is already marked processed in the store,
  a scan started from that store never calls \<^verbatim>\<open>bot.send_message\<close> for it, at no moment
  of the scan and whether or not the scan ends; it does not even request its page.
  The scan starts at \<^verbatim>\<open>get_last_processed_id() + 1\<close> and every call it makes is for an
  id above every processed one.
\<close>

theorem at_most_once_delivery:
  "is_processed x tbl \<Longrightarrow>
     Send x topic_id txt ok \<notin> set (trace (scan_prefix w n (scan_start tbl))) \<and>
     Fetch x \<notin> set (trace (scan_prefix w n (scan_start tbl))) \<and>
     (\<forall>st. check_new_vacancies w n tbl = Some (Inr ((), st)) \<longrightarrow>
           Send x topic_id txt ok \<notin> set (trace st)) \<and>
     get_last_processed_id tbl + 1 = current_id (scan_start tbl) \<and>
     (\<forall>e \<in> set (trace (scan_prefix w n (scan_start tbl))). x < event_id e)"
proof -
  assume x: "is_processed x tbl"
  have lt: "x < event_id e" if "e \<in> set (trace (scan_prefix w n (scan_start tbl)))" for e
    using scan_start_trace [OF x that] .
  have 1: "Send x topic_id txt ok \<notin> set (trace (scan_prefix w n (scan_start tbl)))"
    using lt [of "Send x topic_id txt ok"] by auto
  have 2: "Fetch x \<notin> set (trace (scan_prefix w n (scan_start tbl)))"
    using lt [of "Fetch x"] by auto
  have 3: "Send x topic_id txt ok \<notin> set (trace st)"
    if "check_new_vacancies w n tbl = Some (Inr ((), st))" for st
  proof -
    from that have "scan_loop w n (scan_start tbl) = Some (Inr st)"
      by (auto simp: check_new_vacancies_def split: option.splits sum.splits)
    then have "st = scan_prefix w n (scan_start tbl)" by (rule scan_loop_prefix)
    with 1 show ?thesis by simp
  qed
  have 4: "get_last_processed_id tbl + 1 = current_id (scan_start tbl)"
    by (simp add: scan_start_def)
  from 1 2 3 4 lt show ?thesis by blast
qed

theorem at_most_once_delivery_witness:
  "is_processed 308420 [\<lparr>vacancy_id = 308420, processed_at = 0\<rparr>] \<and>
   Send 308420 2 master_text True \<notin>
     set (trace (scan_prefix (demo_world (ApiResponse 200 (Some master_text)) True (Executed 7)) 3
           (scan_start [\<lparr>vacancy_id = 308420, processed_at = 0\<rparr>])))"
proof -
  have h: "is_processed 308420 [\<lparr>vacancy_id = 308420, processed_at = 0\<rparr>]"
    by (simp add: is_processed_def)
  from at_most_once_delivery [OF h] h show ?thesis by blast
qed



text \<open>
  C3.  On an empty store \<^verbatim>\<open>get_last_processed_id\<close> returns the configured id 308420 and
  the scan adds one to it: the first id requested is 308421, and 308420 itself is never
  requested, whatever the world and however long the scan runs.  In the run where the
  site has a page for 308420 and for 308421, the scan delivers 308421 to topic 2 and
  leaves the store with 308421 as its only and highest id; 308420 is not processed.
\<close>

theorem empty_store_first_candidate:
  "get_last_processed_id [] = 308420 \<and>
   current_id (scan_start []) = 308421 \<and>
   Fetch 308420 \<notin> set (trace (scan_prefix w n (scan_start []))) \<and>
   check_new_vacancies (demo_world (ApiResponse 200 (Some master_text)) True (Executed 7)) 11 [] =
     Some (Inr ((), \<lparr>current_id = 308432, new_count = 1, missing_count = 10,
       db = [\<lparr>vacancy_id = 308421, processed_at = 7\<rparr>],
       trace = [Fetch 308421, Format 308421, Send 308421 2 master_text True, Save 308421,
                Fetch 308422, Fetch 308423, Fetch 308424, Fetch 308425, Fetch 308426,
                Fetch 308427, Fetch 308428, Fetch 308429, Fetch 308430, Fetch 308431]\<rparr>))"
proof -
  have 1: "get_last_processed_id [] = 308420"
    by (simp add: get_last_processed_id_def)
  have 2: "current_id (scan_start []) = 308421"
    by (simp add: scan_start_def get_last_processed_id_def)
  have 3: "Fetch 308420 \<notin> set (trace (scan_prefix w n (scan_start [])))"
  proof
    assume a: "Fetch 308420 \<in> set (trace (scan_prefix w n (scan_start [])))"
    obtain es where "trace (scan_prefix w n (scan_start [])) = trace (scan_start []) @ es"
      "\<forall>e \<in> set es. current_id (scan_start []) \<le> event_id e"
      using scan_prefix_trace by blast
    with a 2 have "308421 \<le> event_id (Fetch 308420)"
      by (auto simp: scan_start_def)
    then show False by simp
  qed
  have 4: "check_new_vacancies (demo_world (ApiResponse 200 (Some master_text)) True (Executed 7)) 11 [] =
     Some (Inr ((), \<lparr>current_id = 308432, new_count = 1, missing_count = 10,
       db = [\<lparr>vacancy_id = 308421, processed_at = 7\<rparr>],
       trace = [Fetch 308421, Format 308421, Send 308421 2 master_text True, Save 308421,
                Fetch 308422, Fetch 308423, Fetch 308424, Fetch 308425, Fetch 308426,
                Fetch 308427, Fetch 308428, Fetch 308429, Fetch 308430, Fetch 308431]\<rparr>))"
    by code_simp
  from 1 2 3 4 show ?thesis by (intro conjI)
qed

text \<open>
  C4.  An id whose page was reported as not present is not saved, but it does not
  stay eligible for a later scan once a higher id has been saved.  The scan of a store
  holding 308418 finds no page for 308419, then delivers and saves 308420 and 308421;
  308419 is not processed afterwards, yet the next scan starts at 308422 and no scan
  from that store requests 308419 again, whatever the site then answers.
\<close>

theorem missed_id_not_rechecked:
  "check_new_vacancies (demo_world (ApiResponse 200 (Some master_text)) True (Executed 7)) 13
       [\<lparr>vacancy_id = 308418, processed_at = 0\<rparr>] =
     Some (Inr ((), \<lparr>current_id = 308432, new_count = 2, missing_count = 10,
       db = [\<lparr>vacancy_id = 308418, processed_at = 0\<rparr>,
             \<lparr>vacancy_id = 308420, processed_at = 7\<rparr>,
             \<lparr>vacancy_id = 308421, processed_at = 7\<rparr>],
       trace = [Fetch 308419,
                Fetch 308420, Format 308420, Send 308420 2 master_text True, Save 308420,
                Fetch 308421, Format 308421, Send 308421 2 master_text True, Save 308421,
                Fetch 308422, Fetch 308423, Fetch 308424, Fetch 308425, Fetch 308426,
                Fetch 308427, Fetch 308428, Fetch 308429, Fetch 308430, Fetch 308431]\<rparr>)) \<and>
   parse_vacancy_page
     (http_get (demo_world (ApiResponse 200 (Some master_text)) True (Executed 7)) 308419) = None \<and>
   \<not> is_processed 308419
       [\<lparr>vacancy_id = 308418, processed_at = 0\<rparr>,
        \<lparr>vacancy_id = 308420, processed_at = 7\<rparr>,
        \<lparr>vacancy_id = 308421, processed_at = 7\<rparr>] \<and>
   current_id (scan_start
       [\<lparr>vacancy_id = 308418, processed_at = 0\<rparr>,
        \<lparr>vacancy_id = 308420, processed_at = 7\<rparr>,
        \<lparr>vacancy_id = 308421, processed_at = 7\<rparr>]) = 308422 \<and>
   Fetch 308419 \<notin> set (trace (scan_prefix w n (scan_start
       [\<lparr>vacancy_id = 308418, processed_at = 0\<rparr>,
        \<lparr>vacancy_id = 308420, processed_at = 7\<rparr>,
        \<lparr>vacancy_id = 308421, processed_at = 7\<rparr>])))"
proof -
  let ?after = "[\<lparr>vacancy_id = 308418, processed_at = 0\<rparr>,
                 \<lparr>vacancy_id = 308420, processed_at = 7\<rparr>,
                 \<lparr>vacancy_id = 308421, processed_at = 7\<rparr>]"
  have 1: "check_new_vacancies (demo_world (ApiResponse 200 (Some master_text)) True (Executed 7)) 13
       [\<lparr>vacancy_id = 308418, processed_at = 0\<rparr>] =
     Some (Inr ((), \<lparr>current_id = 308432, new_count = 2, missing_count = 10,
       db = ?after,
       trace = [Fetch 308419,
                Fetch 308420, Format 308420, Send 308420 2 master_text True, Save 308420,
                Fetch 308421, Format 308421, Send 308421 2 master_text True, Save 308421,
                Fetch 308422, Fetch 308423, Fetch 308424, Fetch 308425, Fetch 308426,
                Fetch 308427, Fetch 308428, Fetch 308429, Fetch 308430, Fetch 308431]\<rparr>))"
    by code_simp
  have 2: "parse_vacancy_page
     (http_get (demo_world (ApiResponse 200 (Some master_text)) True (Executed 7)) 308419) = None"
    by (simp add: demo_world_def parse_vacancy_page_def)
  have 3: "\<not> is_processed 308419 ?after"
    by (simp add: is_processed_def)
  have l: "get_last_processed_id ?after = 308421"
    by (simp add: get_last_processed_id_def)
  then have 4: "current_id (scan_start ?after) = 308422"
    by (simp add: scan_start_def)
  have 5: "Fetch 308419 \<notin> set (trace (scan_prefix w n (scan_start ?after)))"
    by (rule below_last_never_fetched) (simp add: l)
  from 1 2 3 4 5 show ?thesis by (intro conjI)
qed

text \<open>
  C5.  A pass of the loop over an id whose page was fetched and whose formatting call
  raised or returned the empty text calls \<^verbatim>\<open>save_processed_id\<close> for the id, makes no
  call of \<^verbatim>\<open>bot.send_message\<close>, and moves on to the next id.  When the insert did not
  raise, the id is then processed, and no scan started from that store requests it
  again.
\<close>

theorem formatter_failure_marks_processed:
  "parse_vacancy_page (http_get w (current_id st)) = Some raw \<Longrightarrow>
   format_vacancy_deepseek (deepseek_post w (current_id st) raw) = Inl e \<or>
   format_vacancy_deepseek (deepseek_post w (current_id st) raw) = Inr [] \<Longrightarrow>
     \<exists>st'. loop_body w st = Inr st' \<and>
           db st' = save_processed_id (db_execute w (current_id st)) (current_id st) (db st) \<and>
           trace st' = trace st @ [Fetch (current_id st), Format (current_id st), Save (current_id st)] \<and>
           current_id st' = current_id st + 1 \<and>
           new_count st' = new_count st \<and>
           missing_count st' = 0 \<and>
           (db_execute w (current_id st) \<noteq> Raised \<longrightarrow>
              is_processed (current_id st) (db st') \<and>
              (\<forall>w' n. Fetch (current_id st) \<notin> set (trace (scan_prefix w' n (scan_start (db st'))))))"
proof -
  assume p: "parse_vacancy_page (http_get w (current_id st)) = Some raw"
    and f: "format_vacancy_deepseek (deepseek_post w (current_id st) raw) = Inl e \<or>
            format_vacancy_deepseek (deepseek_post w (current_id st) raw) = Inr []"
  let ?st2 = "st\<lparr>trace := trace st @ [Fetch (current_id st)], missing_count := 0,
                  trace := trace st @ [Fetch (current_id st)] @ [Format (current_id st)]\<rparr>"
  let ?st' = "save_and_advance w ?st2"
  from p f have b: "loop_body w st = Inr ?st'"
    by (auto simp: loop_body_def Let_def)
  have d: "db ?st' = save_processed_id (db_execute w (current_id st)) (current_id st) (db st)"
    by (simp add: save_and_advance_def)
  have m: "is_processed (current_id st) (db ?st')" if "db_execute w (current_id st) \<noteq> Raised"
    using that d save_marks by (cases "db_execute w (current_id st)") simp_all
  have "\<forall>w' n. Fetch (current_id st) \<notin> set (trace (scan_prefix w' n (scan_start (db ?st'))))"
    if "db_execute w (current_id st) \<noteq> Raised"
    using never_fetched_again [OF m [OF that]] by blast
  with b d m show ?thesis
    by (simp add: save_and_advance_def)
qed

theorem formatter_failure_marks_processed_witness:
  "parse_vacancy_page (http_get (demo_world (ApiResponse 200 (Some ''  '')) True (Executed 7))
      (current_id (scan_start []))) = Some (''Job Title: Master'' @ [newline] @ block_text master_page) \<and>
   format_vacancy_deepseek (ApiResponse 200 (Some ''  '')) = Inr [] \<and>
   format_vacancy_deepseek (ApiResponse 500 None) = Inl ApiError \<and>
   (\<exists>st'. loop_body (demo_world (ApiResponse 200 (Some ''  '')) True (Executed 7)) (scan_start []) = Inr st' \<and>
          db st' = [\<lparr>vacancy_id = 308421, processed_at = 7\<rparr>] \<and>
          trace st' = [Fetch 308421, Format 308421, Save 308421] \<and>
          is_processed 308421 (db st')) \<and>
   (\<exists>st'. loop_body (demo_world (ApiResponse 500 None) True (Executed 7)) (scan_start []) = Inr st' \<and>
          db st' = [\<lparr>vacancy_id = 308421, processed_at = 7\<rparr>] \<and>
          trace st' = [Fetch 308421, Format 308421, Save 308421] \<and>
          is_processed 308421 (db st'))"
proof -
  let ?raw = "''Job Title: Master'' @ [newline] @ block_text master_page"
  let ?w = "demo_world (ApiResponse 200 (Some ''  '')) True (Executed 7)"
  let ?v = "demo_world (ApiResponse 500 None) True (Executed 7)"
  let ?s = "scan_start []"
  have c: "current_id ?s = 308421"
    by (simp add: scan_start_def get_last_processed_id_def)
  have pw: "parse_vacancy_page (http_get ?w (current_id ?s)) = Some ?raw"
    by (simp add: c demo_world_def parse_vacancy_page_def master_page_def)
  have pv: "parse_vacancy_page (http_get ?v (current_id ?s)) = Some ?raw"
    by (simp add: c demo_world_def parse_vacancy_page_def master_page_def)
  have e: "format_vacancy_deepseek (ApiResponse 200 (Some ''  '')) = Inr []"
    by code_simp
  have f: "format_vacancy_deepseek (ApiResponse 500 None) = Inl ApiError"
    by (simp add: format_vacancy_deepseek_def)
  have fw: "format_vacancy_deepseek (deepseek_post ?w (current_id ?s) ?raw) = Inl ApiError \<or>
            format_vacancy_deepseek (deepseek_post ?w (current_id ?s) ?raw) = Inr []"
    using e by (simp add: demo_world_def)
  have fv: "format_vacancy_deepseek (deepseek_post ?v (current_id ?s) ?raw) = Inl ApiError \<or>
            format_vacancy_deepseek (deepseek_post ?v (current_id ?s) ?raw) = Inr []"
    using f by (simp add: demo_world_def)
  have xw: "db_execute ?w 308421 = Executed 7" and xv: "db_execute ?v 308421 = Executed 7"
    by (simp_all add: demo_world_def)
  have dbs: "db ?s = []" "trace ?s = []"
    by (simp_all add: scan_start_def)
  from formatter_failure_marks_processed [OF pw fw]
  have 1: "\<exists>st'. loop_body ?w ?s = Inr st' \<and>
          db st' = [\<lparr>vacancy_id = 308421, processed_at = 7\<rparr>] \<and>
          trace st' = [Fetch 308421, Format 308421, Save 308421] \<and>
          is_processed 308421 (db st')"
    by (auto simp: xw c dbs save_processed_id_def)
  from formatter_failure_marks_processed [OF pv fv]
  have 2: "\<exists>st'. loop_body ?v ?s = Inr st' \<and>
          db st' = [\<lparr>vacancy_id = 308421, processed_at = 7\<rparr>] \<and>
          trace st' = [Fetch 308421, Format 308421, Save 308421] \<and>
          is_processed 308421 (db st')"
    by (auto simp: xv c dbs save_processed_id_def)
  from pw e f 1 2 show ?thesis by (intro conjI)
qed

text \<open>
  C7.  A pass of the loop that reaches \<^verbatim>\<open>bot.send_message\<close> and sees it raise still
  calls \<^verbatim>\<open>save_processed_id\<close> for the id, counts it in \<^verbatim>\<open>new_count\<close> and moves on to the
  next id.  When the insert did not raise, the id is then processed, and no scan
  started from that store requests it again.
\<close>

theorem delivery_failure_still_marks_processed:
  "parse_vacancy_page (http_get w (current_id st)) = Some raw \<Longrightarrow>
   format_vacancy_deepseek (deepseek_post w (current_id st) raw) = Inr txt \<Longrightarrow>
   txt \<noteq> [] \<Longrightarrow>
   choose_topic txt = Inr topic_id \<Longrightarrow>
   topic_id \<noteq> 0 \<Longrightarrow>
   \<not> send_message w (current_id st) topic_id txt \<Longrightarrow>
     \<exists>st'. loop_body w st = Inr st' \<and>
           db st' = save_processed_id (db_execute w (current_id st)) (current_id st) (db st) \<and>
           trace st' = trace st @ [Fetch (current_id st), Format (current_id st),
                                   Send (current_id st) topic_id txt False, Save (current_id st)] \<and>
           current_id st' = current_id st + 1 \<and>
           new_count st' = new_count st + 1 \<and>
           missing_count st' = 0 \<and>
           (db_execute w (current_id st) \<noteq> Raised \<longrightarrow>
              is_processed (current_id st) (db st') \<and>
              (\<forall>w' n. Fetch (current_id st) \<notin> set (trace (scan_prefix w' n (scan_start (db st'))))))"
proof -
  assume p: "parse_vacancy_page (http_get w (current_id st)) = Some raw"
    and f: "format_vacancy_deepseek (deepseek_post w (current_id st) raw) = Inr txt"
    and t: "txt \<noteq> []" "choose_topic txt = Inr topic_id" "topic_id \<noteq> 0"
    and s: "\<not> send_message w (current_id st) topic_id txt"
  let ?st3 = "st\<lparr>trace := trace st @ [Fetch (current_id st)], missing_count := 0,
                  trace := trace st @ [Fetch (current_id st)] @ [Format (current_id st)],
                  trace := (trace st @ [Fetch (current_id st)] @ [Format (current_id st)]) @
                           [Send (current_id st) topic_id txt False]\<rparr>"
  let ?st' = "(save_and_advance w ?st3)\<lparr>new_count := new_count (save_and_advance w ?st3) + 1\<rparr>"
  from p f t s have b: "loop_body w st = Inr ?st'"
    by (simp add: loop_body_def Let_def)
  have d: "db ?st' = save_processed_id (db_execute w (current_id st)) (current_id st) (db st)"
    by (simp add: save_and_advance_def)
  have m: "is_processed (current_id st) (db ?st')" if "db_execute w (current_id st) \<noteq> Raised"
    using that d save_marks by (cases "db_execute w (current_id st)") simp_all
  have "\<forall>w' n. Fetch (current_id st) \<notin> set (trace (scan_prefix w' n (scan_start (db ?st'))))"
    if "db_execute w (current_id st) \<noteq> Raised"
    using never_fetched_again [OF m [OF that]] by blast
  with b d m show ?thesis
    by (simp add: save_and_advance_def)
qed

theorem delivery_failure_still_marks_processed_witness:
  "\<not> send_message (demo_world (ApiResponse 200 (Some master_text)) False (Executed 7)) 308421 2 master_text \<and>
   (\<exists>st'. loop_body (demo_world (ApiResponse 200 (Some master_text)) False (Executed 7)) (scan_start []) = Inr st' \<and>
          db st' = [\<lparr>vacancy_id = 308421, processed_at = 7\<rparr>] \<and>
          trace st' = [Fetch 308421, Format 308421, Send 308421 2 master_text False, Save 308421] \<and>
          current_id st' = 308422 \<and>
          is_processed 308421 (db st'))"
proof -
  let ?raw = "''Job Title: Master'' @ [newline] @ block_text master_page"
  let ?w = "demo_world (ApiResponse 200 (Some master_text)) False (Executed 7)"
  let ?s = "scan_start []"
  have c: "current_id ?s = 308421"
    by (simp add: scan_start_def get_last_processed_id_def)
  have p: "parse_vacancy_page (http_get ?w (current_id ?s)) = Some ?raw"
    by (simp add: c demo_world_def parse_vacancy_page_def master_page_def)
  have "format_vacancy_deepseek (ApiResponse 200 (Some master_text)) = Inr master_text"
    by code_simp
  then have f: "format_vacancy_deepseek (deepseek_post ?w (current_id ?s) ?raw) = Inr master_text"
    by (simp add: demo_world_def)
  have n: "master_text \<noteq> []"
    by (simp add: master_text_def)
  have t: "choose_topic master_text = Inr 2"
    by code_simp
  have z: "(2::int) \<noteq> 0" by simp
  have s: "\<not> send_message ?w (current_id ?s) 2 master_text"
    by (simp add: demo_world_def)
  have x: "db_execute ?w 308421 = Executed 7"
    by (simp add: demo_world_def)
  have dbs: "db ?s = []" "trace ?s = []"
    by (simp_all add: scan_start_def)
  from delivery_failure_still_marks_processed [OF p f n t z s]
  have 1: "\<exists>st'. loop_body ?w ?s = Inr st' \<and>
          db st' = [\<lparr>vacancy_id = 308421, processed_at = 7\<rparr>] \<and>
          trace st' = [Fetch 308421, Format 308421, Send 308421 2 master_text False, Save 308421] \<and>
          current_id st' = 308422 \<and>
          is_processed 308421 (db st')"
    by (auto simp: x c dbs save_processed_id_def)
  from s c have "\<not> send_message ?w 308421 2 master_text" by simp
  with 1 show ?thesis by (intro conjI)
qed

text \<open>
  C6.  \<^verbatim>\<open>choose_topic\<close> is the classifier of the specification: on every text the
  formatter returns it gives the destination of the first keyword of
  \<^verbatim>\<open>TOPIC_ID_MAPPING\<close>, in the order of the table, that is contained in the lower-cased
  first line, and 0 when none is.  (On any text at all it does so for the text
  stripped of surrounding space, and the formatter returns stripped text.)  On every
  text that begins with "Chief Officer on Bulk Carrier" the result is 36, the
  destination of "chief officer".
\<close>

theorem choose_topic_first_keyword:
  "choose_topic t = Inr (classify (py_strip t)) \<and>
   (format_vacancy_deepseek reply = Inr t \<longrightarrow> choose_topic t = Inr (classify t)) \<and>
   choose_topic (''Chief Officer on Bulk Carrier'' @ rest) = Inr 36 \<and>
   map_of TOPIC_ID_MAPPING ''chief officer'' = Some 36"
proof (intro conjI impI)
  show "choose_topic t = Inr (classify (py_strip t))"
    by (rule choose_topic_classify)
  show "choose_topic t = Inr (classify t)" if "format_vacancy_deepseek reply = Inr t"
    using format_output_stripped [OF that] choose_topic_classify [of t] by simp
  show "choose_topic (''Chief Officer on Bulk Carrier'' @ rest) = Inr 36"
    by (rule chief_officer_first)
  show "map_of TOPIC_ID_MAPPING ''chief officer'' = Some 36"
    by (simp add: TOPIC_ID_MAPPING_def)
qed

theorem choose_topic_first_keyword_witness:
  "format_vacancy_deepseek (ApiResponse 200 (Some ([CHR 0xA0] @ master_text @ [CHR 0x85]))) = Inr master_text \<and>
   format_vacancy_deepseek (ApiResponse 200 (Some ('' '' @ master_text @ [newline]))) = Inr master_text \<and>
   classify master_text = 2 \<and>
   choose_topic master_text = Inr 2"
proof -
  have f: "format_vacancy_deepseek (ApiResponse 200 (Some ('' '' @ master_text @ [newline]))) = Inr master_text"
    by code_simp
  have c: "classify master_text = 2"
    by code_simp
  have g: "format_vacancy_deepseek (ApiResponse 200 (Some ([CHR 0xA0] @ master_text @ [CHR 0x85]))) = Inr master_text"
    by code_simp
  from choose_topic_first_keyword [of master_text "ApiResponse 200 (Some ('' '' @ master_text @ [newline]))"] f
  have "choose_topic master_text = Inr (classify master_text)" by blast
  with f g c show ?thesis by simp
qed

text \<open>
  C8.  \<^verbatim>\<open>save_processed_id\<close> is idempotent: a second insert of the same id, at whatever
  time, leaves the table as the first insert left it, and so does a second call whose
  statement raises.  An insert of an id that is already in the table changes nothing
  and raises nothing, the id is in the table after an insert that ran, and
  \<^verbatim>\<open>vacancy_id\<close> stays unique.
\<close>

theorem save_processed_id_idempotent:
  "save_processed_id (Executed t2) x (save_processed_id (Executed t1) x tbl)
     = save_processed_id (Executed t1) x tbl \<and>
   save_processed_id Raised x (save_processed_id r x tbl) = save_processed_id r x tbl \<and>
   (is_processed x tbl \<longrightarrow> save_processed_id r x tbl = tbl) \<and>
   is_processed x (save_processed_id (Executed t1) x tbl) \<and>
   (distinct (map vacancy_id tbl) \<longrightarrow> distinct (map vacancy_id (save_processed_id r x tbl)))"
proof (intro conjI impI)
  show "save_processed_id (Executed t2) x (save_processed_id (Executed t1) x tbl)
     = save_processed_id (Executed t1) x tbl"
    by (rule save_idem) simp
  show "save_processed_id Raised x (save_processed_id r x tbl) = save_processed_id r x tbl"
    by (rule save_idem) simp
  show "save_processed_id r x tbl = tbl" if "is_processed x tbl"
    using that by (rule save_absorbs)
  show "is_processed x (save_processed_id (Executed t1) x tbl)"
    by (rule save_marks)
  show "distinct (map vacancy_id (save_processed_id r x tbl))" if "distinct (map vacancy_id tbl)"
    using that by (cases r) (simp_all add: save_processed_id_def)
qed

theorem save_processed_id_idempotent_witness:
  "is_processed 5 [\<lparr>vacancy_id = 5, processed_at = 1\<rparr>] \<and>
   distinct (map vacancy_id [\<lparr>vacancy_id = 5, processed_at = 1\<rparr>]) \<and>
   save_processed_id (Executed 9) 5 [\<lparr>vacancy_id = 5, processed_at = 1\<rparr>]
     = [\<lparr>vacancy_id = 5, processed_at = 1\<rparr>] \<and>
   distinct (map vacancy_id (save_processed_id (Executed 9) 5 [\<lparr>vacancy_id = 5, processed_at = 1\<rparr>]))"
proof -
  let ?tbl = "[\<lparr>vacancy_id = 5, processed_at = 1\<rparr>]"
  have p: "is_processed 5 ?tbl" by (simp add: is_processed_def)
  have d: "distinct (map vacancy_id ?tbl)" by simp
  note t = save_processed_id_idempotent [of 0 5 0 ?tbl "Executed 9"]
  from t p have 1: "save_processed_id (Executed 9) 5 ?tbl = ?tbl" by blast
  from t d have 2: "distinct (map vacancy_id (save_processed_id (Executed 9) 5 ?tbl))" by blast
  from p d 1 2 show ?thesis by (intro conjI)
qed

text \<open>
  C9, as stated, fails.  \<^verbatim>\<open>check_new_vacancies\<close> returns None whatever it did: the scan
  of the empty store requests 11 pages and delivers one posting, the scan of a store
  holding 308421 requests 10 pages and delivers nothing, and both return the same value.
\<close>

theorem scan_returns_no_counts:
  "check_new_vacancies (demo_world (ApiResponse 200 (Some master_text)) True (Executed 7)) 11 [] =
     Some (Inr ((), \<lparr>current_id = 308432, new_count = 1, missing_count = 10,
       db = [\<lparr>vacancy_id = 308421, processed_at = 7\<rparr>],
       trace = [Fetch 308421, Format 308421, Send 308421 2 master_text True, Save 308421,
                Fetch 308422, Fetch 308423, Fetch 308424, Fetch 308425, Fetch 308426,
                Fetch 308427, Fetch 308428, Fetch 308429, Fetch 308430, Fetch 308431]\<rparr>)) \<and>
   check_new_vacancies (demo_world (ApiResponse 200 (Some master_text)) True (Executed 7)) 11
       [\<lparr>vacancy_id = 308421, processed_at = 0\<rparr>] =
     Some (Inr ((), \<lparr>current_id = 308432, new_count = 0, missing_count = 10,
       db = [\<lparr>vacancy_id = 308421, processed_at = 0\<rparr>],
       trace = [Fetch 308422, Fetch 308423, Fetch 308424, Fetch 308425, Fetch 308426,
                Fetch 308427, Fetch 308428, Fetch 308429, Fetch 308430, Fetch 308431]\<rparr>))"
  by code_simp

text \<open>
  C9, amended.  \<^verbatim>\<open>check_new_vacancies\<close> returns None.  The one count it keeps,
  \<^verbatim>\<open>new_count\<close>, which it writes to the log when the loop has ended, is the number of
  calls of \<^verbatim>\<open>bot.send_message\<close> the scan made, whether or not they succeeded.
\<close>

theorem new_count_is_number_of_sends:
  "check_new_vacancies w fuel tbl = Some (Inr (v, st)) \<Longrightarrow>
     v = () \<and> new_count st = int (length (filter is_send (trace st)))"
proof -
  assume "check_new_vacancies w fuel tbl = Some (Inr (v, st))"
  then have "scan_loop w fuel (scan_start tbl) = Some (Inr st)"
    by (auto simp: check_new_vacancies_def split: option.splits sum.splits)
  then have st: "st = scan_prefix w fuel (scan_start tbl)" by (rule scan_loop_prefix)
  obtain es where "trace st = trace (scan_start tbl) @ es"
    "new_count st = new_count (scan_start tbl) + int (length (filter is_send es))"
    unfolding st using scan_prefix_trace by blast
  then show ?thesis by (simp add: scan_start_def)
qed

theorem new_count_is_number_of_sends_witness:
  "(\<exists>st. check_new_vacancies (demo_world (ApiResponse 200 (Some master_text)) False (Executed 7)) 11 []
      = Some (Inr ((), st)) \<and> new_count st = 1 \<and>
      filter is_send (trace st) = [Send 308421 2 master_text False])"
proof -
  let ?w = "demo_world (ApiResponse 200 (Some master_text)) False (Executed 7)"
  let ?st = "\<lparr>current_id = 308432, new_count = 1, missing_count = 10,
       db = [\<lparr>vacancy_id = 308421, processed_at = 7\<rparr>],
       trace = [Fetch 308421, Format 308421, Send 308421 2 master_text False, Save 308421,
                Fetch 308422, Fetch 308423, Fetch 308424, Fetch 308425, Fetch 308426,
                Fetch 308427, Fetch 308428, Fetch 308429, Fetch 308430, Fetch 308431]\<rparr>"
  have r: "check_new_vacancies ?w 11 [] = Some (Inr ((), ?st))"
    by code_simp
  have f: "filter is_send (trace ?st) = [Send 308421 2 master_text False]"
    by simp
  from new_count_is_number_of_sends [OF r] f have "new_count ?st = 1" by simp
  with r f show ?thesis by blast
qed

text \<open>
  C10.  \<^verbatim>\<open>choose_topic\<close> raises on no text (the index 0 after the split is always in
  range): it returns 0 or a destination of \<^verbatim>\<open>TOPIC_ID_MAPPING\<close>.  Every destination of
  the table is at least 2, so none is 0, and the result is 0 exactly when no keyword
  is contained in the line the function tests.
\<close>

theorem choose_topic_total:
  "(\<exists>d. choose_topic t = Inr d \<and> (d = 0 \<or> d \<in> snd ` set TOPIC_ID_MAPPING)) \<and>
   (\<forall>d \<in> snd ` set TOPIC_ID_MAPPING. 2 \<le> d) \<and>
   0 \<notin> snd ` set TOPIC_ID_MAPPING \<and>
   (choose_topic t = Inr 0 \<longleftrightarrow>
      (\<forall>(keyword, topic_id) \<in> set TOPIC_ID_MAPPING.
          \<not> sublist keyword (py_lower (first_line_of (py_strip t)))))"
proof -
  let ?l = "py_lower (first_line_of (py_strip t))"
  have m: "choose_topic t = Inr (match_topic TOPIC_ID_MAPPING ?l)"
    by (rule choose_topic_match)
  have z: "0 \<notin> snd ` set TOPIC_ID_MAPPING"
    using topic_ids_ge_2 by fastforce
  have 1: "\<exists>d. choose_topic t = Inr d \<and> (d = 0 \<or> d \<in> snd ` set TOPIC_ID_MAPPING)"
    using m match_topic_range [of TOPIC_ID_MAPPING ?l] by simp
  have 2: "choose_topic t = Inr 0 \<longleftrightarrow>
      (\<forall>(keyword, topic_id) \<in> set TOPIC_ID_MAPPING. \<not> sublist keyword ?l)"
    using m match_topic_zero [OF z, of ?l] by simp
  from 1 2 z topic_ids_ge_2 show ?thesis by blast
qed

theorem choose_topic_total_witness:
  "choose_topic [] = Inr 0 \<and> choose_topic ''Cook'' = Inr 98 \<and>
   choose_topic ([CHR 0x85, newline] @ ''Cook'') = Inr 98 \<and>
   choose_topic ([CHR 0xA0] @ ''COOK'' @ [CHR 0xA0, newline] @ ''Master'') = Inr 98 \<and>
   98 \<in> snd ` set TOPIC_ID_MAPPING \<and> (2::int) \<le> 98"
proof -
  have e: "choose_topic [] = Inr 0" by code_simp
  have c: "choose_topic ''Cook'' = Inr 98" by code_simp
  have n: "choose_topic ([CHR 0x85, newline] @ ''Cook'') = Inr 98" by code_simp
  have b: "choose_topic ([CHR 0xA0] @ ''COOK'' @ [CHR 0xA0, newline] @ ''Master'') = Inr 98"
    by code_simp
  from choose_topic_total [of "[CHR 0x85, newline] @ ''Cook''"] n
  have i: "98 \<in> snd ` set TOPIC_ID_MAPPING" by auto
  with choose_topic_total [of "[CHR 0x85, newline] @ ''Cook''"] have "(2::int) \<le> 98" by blast
  with e c n b i show ?thesis by (intro conjI)
qed

end
